theory Spec2Isabelle
  imports Complex_Main
begin

section \<open>Data model\<close>

text \<open>
  The scripts \<^verbatim>\<open>plot_heatmap.py\<close> and \<^verbatim>\<open>plot_long-term.py\<close> build a frame
  \<^verbatim>\<open>returns\<close> whose index is the calendar year and whose column \<^verbatim>\<open>Return\<close> holds the
  simple annual return of that year; \<^verbatim>\<open>dropna()\<close> has removed every missing value.
  A float64 value is modelled by the real number it denotes and a missing value (NaN) of
  a derived series by \<open>None\<close>; infinities and overflow are outside the model.

  The aggregation is modelled at two levels. At the first level arithmetic is exact: that
  model fixes which window and which formula a cell holds and where a cell is missing.
  The second level rounds every arithmetic operation to float64; it decides the claims
  that compare computed values with each other or with the input.
\<close>

type_synonym series = "real option list"

type_synonym frame = "(int \<times> real) list"

text \<open>
  The only way the aggregation can stop: on an empty frame \<^verbatim>\<open>returns.index.max()\<close>
  is NaN, and \<^verbatim>\<open>range(N_YEARS)\<close> raises a TypeError.
\<close>

datatype error = TypeError

section \<open>Library operations used by the aggregation\<close>

text \<open>
  \<^verbatim>\<open>x ** y\<close> on a numpy float64 \<open>x\<close>, in exact arithmetic: a negative base with a non-integral exponent is
  NaN (a RuntimeWarning, no exception); zero to a positive power is zero. The program
  only uses exponents \<open>1 / window\<close>, which are positive; zero to a negative power
  (infinite in numpy) is outside the model and left missing here.
\<close>

definition np_power :: "real \<Rightarrow> real \<Rightarrow> real option" where
  "np_power x y =
     (if 0 < x then Some (x powr y)
      else if x = 0 then (if 0 < y then Some 0 else if y = 0 then Some 1 else None)
      else if y = of_int \<lfloor>y\<rfloor> then Some (x powi \<lfloor>y\<rfloor>)
      else None)"

text \<open>
  \<^verbatim>\<open>s.rolling(window=window, min_periods=window).apply(f, raw=True)\<close> on a series
  without missing values: position \<open>j\<close> holds \<open>f\<close> of the \<open>window\<close> values ending at
  \<open>j\<close>, and is missing while fewer than \<open>window\<close> values are available.
\<close>

definition rolling_apply :: "nat \<Rightarrow> (real list \<Rightarrow> real option) \<Rightarrow> real list \<Rightarrow> series" where
  "rolling_apply window f xs =
     map (\<lambda>j. if j + 1 < window then None
              else f (take window (drop (j + 1 - window) xs)))
         [0..<length xs]"

text \<open>
  \<^verbatim>\<open>s.shift(periods)\<close>: the values move by \<open>periods\<close> positions along the index, the
  length stays, and the vacated positions are missing.
\<close>

definition shift_series :: "int \<Rightarrow> series \<Rightarrow> series" where
  "shift_series periods xs =
     (if 0 \<le> periods
      then replicate (min (nat periods) (length xs)) None @ take (length xs - nat periods) xs
      else drop (nat (- periods)) xs @ replicate (min (nat (- periods)) (length xs)) None)"

text \<open>
  \<^verbatim>\<open>s.sub(c)\<close>, in exact arithmetic: subtract a scalar; a missing value stays missing.
\<close>

definition sub_series :: "real \<Rightarrow> series \<Rightarrow> series" where
  "sub_series c xs = map (map_option (\<lambda>v. v - c)) xs"

section \<open>The return aggregation\<close>

text \<open>\<^verbatim>\<open>N_YEARS = returns.index.max() - returns.index.min() + 1\<close>\<close>

definition N_YEARS :: "frame \<Rightarrow> error + int" where
  "N_YEARS returns =
     (if returns = [] then Inl TypeError
      else Inr (Max (set (map fst returns)) - Min (set (map fst returns)) + 1))"

text \<open>\<^verbatim>\<open>one_plus = returns["Return"] + 1\<close>, in exact arithmetic.\<close>

definition one_plus :: "frame \<Rightarrow> real list" where
  "one_plus returns = map (\<lambda>r. r + 1) (map snd returns)"

text \<open>
  The body of the loop for one \<open>h\<close>: the column \<^verbatim>\<open>Return_h\<close> of the annualized frame
  and of the total frame.
\<close>

definition avg_column :: "real list \<Rightarrow> nat \<Rightarrow> series" where
  "avg_column op h =
     (let window = h + 1 in
      sub_series 1
        (shift_series (- int h)
          (rolling_apply window (\<lambda>x. np_power (prod_list x) (1 / real window)) op)))"

definition tot_column :: "real list \<Rightarrow> nat \<Rightarrow> series" where
  "tot_column op h =
     (let window = h + 1 in
      sub_series 1
        (shift_series (- int h)
          (rolling_apply window (\<lambda>x. Some (prod_list x)) op)))"

text \<open>
  The loop \<^verbatim>\<open>for h in range(N_YEARS)\<close> adds one column per \<open>h\<close>; the result is the
  list of the columns \<^verbatim>\<open>Return_0\<close>, \<^verbatim>\<open>Return_1\<close>, ... in that order, each indexed by the
  row (start year) position.
\<close>

definition returns_avg :: "frame \<Rightarrow> error + series list" where
  "returns_avg returns =
     (case N_YEARS returns of
        Inl e \<Rightarrow> Inl e
      | Inr n \<Rightarrow> Inr (map (avg_column (one_plus returns)) [0..<nat n]))"

definition returns_tot :: "frame \<Rightarrow> error + series list" where
  "returns_tot returns =
     (case N_YEARS returns of
        Inl e \<Rightarrow> Inl e
      | Inr n \<Rightarrow> Inr (map (tot_column (one_plus returns)) [0..<nat n]))"


section \<open>The return aggregation in float64 arithmetic\<close>

text \<open>
  An arithmetic operation on float64 values returns the exact result rounded to the
  nearest float64, a tie going to the value with the even significand. \<open>round_even\<close>
  rounds a real number to an integer in that way.
\<close>

definition round_even :: "real \<Rightarrow> int" where
  "round_even x =
     (let f = \<lfloor>x\<rfloor>
      in if x - of_int f < 1 / 2 then f
         else if 1 / 2 < x - of_int f then f + 1
         else if even f then f else f + 1)"

text \<open>
  \<open>fl x\<close> is the float64 nearest to \<open>x\<close>: \<open>x\<close> is scaled by a power of two so that it
  has 53 binary digits before the point, rounded, and scaled back. The exponent range is
  not bounded. Overflow is outside the model. A sum or difference of float64 values that
  falls into the underflow range is exact in IEEE arithmetic and under \<open>fl\<close> alike, and
  the products evaluated below are far from that range.
\<close>

definition fl :: "real \<Rightarrow> real" where
  "fl x =
     (if x = 0 then 0
      else let e = \<lfloor>log 2 \<bar>x\<bar>\<rfloor>
           in of_int (round_even (x * 2 powi (52 - e))) * 2 powi (e - 52))"

text \<open>
  \<^verbatim>\<open>x.prod()\<close> on the values of a window: numpy multiplies them in index order and
  rounds every product.
\<close>

fun prod_fl :: "real list \<Rightarrow> real" where
  "prod_fl [] = 1"
| "prod_fl (x # xs) = foldl (\<lambda>a b. fl (a * b)) x xs"

text \<open>\<^verbatim>\<open>one_plus = returns["Return"] + 1\<close> and \<^verbatim>\<open>s.sub(c)\<close>, each with one rounding.\<close>

definition one_plus_fl :: "frame \<Rightarrow> real list" where
  "one_plus_fl returns = map (\<lambda>r. fl (r + 1)) (map snd returns)"

definition sub_series_fl :: "real \<Rightarrow> series \<Rightarrow> series" where
  "sub_series_fl c xs = map (map_option (\<lambda>v. fl (v - c))) xs"

text \<open>
  The power \<^verbatim>\<open>x.prod() ** (1 / window)\<close> is computed by the \<^verbatim>\<open>pow\<close> of the C library.
  Its result is accurate to about one unit in the last place but is not fixed bit for
  bit, so the annualized column takes the power as a parameter \<open>pw\<close> (\<open>None\<close> is NaN),
  and every theorem states what it assumes of \<open>pw\<close>. The exponent \<^verbatim>\<open>1 / window\<close> is a
  float64 division.
\<close>

definition avg_column_fl :: "(real \<Rightarrow> real \<Rightarrow> real option) \<Rightarrow> real list \<Rightarrow> nat \<Rightarrow> series" where
  "avg_column_fl pw op h =
     (let window = h + 1 in
      sub_series_fl 1
        (shift_series (- int h)
          (rolling_apply window (\<lambda>x. pw (prod_fl x) (fl (1 / real window))) op)))"

definition tot_column_fl :: "real list \<Rightarrow> nat \<Rightarrow> series" where
  "tot_column_fl op h =
     (let window = h + 1 in
      sub_series_fl 1
        (shift_series (- int h)
          (rolling_apply window (\<lambda>x. Some (prod_fl x)) op)))"

definition returns_avg_fl :: "(real \<Rightarrow> real \<Rightarrow> real option) \<Rightarrow> frame \<Rightarrow> error + series list" where
  "returns_avg_fl pw returns =
     (case N_YEARS returns of
        Inl e \<Rightarrow> Inl e
      | Inr n \<Rightarrow> Inr (map (avg_column_fl pw (one_plus_fl returns)) [0..<nat n]))"

definition returns_tot_fl :: "frame \<Rightarrow> error + series list" where
  "returns_tot_fl returns =
     (case N_YEARS returns of
        Inl e \<Rightarrow> Inl e
      | Inr n \<Rightarrow> Inr (map (tot_column_fl (one_plus_fl returns)) [0..<nat n]))"

text \<open>
  The correctly rounded power: the value that \<^verbatim>\<open>pow\<close> returns whenever the exact power
  is not close to the midpoint between two neighbouring float64 values.
\<close>

definition np_power_fl :: "real \<Rightarrow> real \<Rightarrow> real option" where
  "np_power_fl x y = map_option fl (np_power x y)"

section \<open>Binning of the annual returns\<close>

text \<open>
  \<^verbatim>\<open>plot_returns-one.py\<close> sorts each annual return into one of twelve intervals with
  \<^verbatim>\<open>pd.cut(returns["Return"], bins=bins, right=False)\<close>. The boundaries are float64
  values, two of them infinite.
\<close>

datatype bound = NegInf | Fin real | PosInf








section \<open>Properties of the library operations\<close>

lemma length_rolling_apply: "length (rolling_apply w f xs) = length xs"
  by (simp add: rolling_apply_def)

lemma length_shift: "length (shift_series p xs) = length xs"
  by (auto simp add: shift_series_def)

lemma length_sub_series: "length (sub_series c xs) = length xs"
  by (simp add: sub_series_def)

lemma shift_back_nth:
  assumes "i < length xs"
  shows "shift_series (- int h) xs ! i = (if i + h < length xs then xs ! (i + h) else None)"
proof (cases "h = 0")
  case True
  then show ?thesis using assms by (simp add: shift_series_def)
next
  case False
  then have neg: "\<not> 0 \<le> - int h" by simp
  show ?thesis
  proof (cases "i + h < length xs")
    case True
    then have "i < length (drop h xs)" by simp
    then show ?thesis using True neg
      by (simp add: shift_series_def nth_append add.commute)
  next
    case False
    then have ge: "length (drop h xs) \<le> i" by simp
    have "i - length (drop h xs) < min h (length xs)" using assms False by auto
    then show ?thesis using False neg ge
      by (simp add: shift_series_def nth_append)
  qed
qed

lemma rolling_apply_nth:
  assumes "j < length xs"
  shows "rolling_apply w f xs ! j =
           (if j + 1 < w then None else f (take w (drop (j + 1 - w) xs)))"
  using assms by (simp add: rolling_apply_def)

text \<open>
  Rolling over \<open>h + 1\<close> values and shifting back by \<open>h\<close> turns the trailing window into
  the forward window that starts at the row.
\<close>

lemma forward_window:
  assumes "i < length xs"
  shows "shift_series (- int h) (rolling_apply (h + 1) f xs) ! i =
           (if i + h < length xs then f (take (h + 1) (drop i xs)) else None)"
proof -
  have "i < length (rolling_apply (h + 1) f xs)"
    using assms by (simp add: length_rolling_apply)
  then have "shift_series (- int h) (rolling_apply (h + 1) f xs) ! i =
      (if i + h < length xs then rolling_apply (h + 1) f xs ! (i + h) else None)"
    by (simp add: shift_back_nth length_rolling_apply)
  then show ?thesis by (simp add: rolling_apply_nth)
qed

lemma prod_list_window:
  "i + h \<le> length xs \<Longrightarrow> prod_list (take h (drop i xs)) = (\<Prod>k = i..<i + h. xs ! k)"
proof (induction h)
  case 0
  then show ?case by simp
next
  case (Suc h)
  then have "take (Suc h) (drop i xs) = take h (drop i xs) @ [xs ! (i + h)]"
    by (simp add: take_Suc_conv_app_nth)
  then show ?case using Suc by simp
qed

section \<open>The cells of the two frames\<close>

lemma tot_column_nth:
  assumes "i < length xs"
  shows "tot_column xs h ! i =
           (if i + h < length xs then Some (prod_list (take (h + 1) (drop i xs)) - 1) else None)"
proof -
  let ?s = "shift_series (- int h) (rolling_apply (h + 1) (\<lambda>x. Some (prod_list x)) xs)"
  have len: "i < length ?s"
    using assms by (simp only: length_shift length_rolling_apply)
  have "tot_column xs h = map (map_option (\<lambda>v. v - 1)) ?s"
    by (simp only: tot_column_def sub_series_def Let_def)
  then have "tot_column xs h ! i = map_option (\<lambda>v. v - 1) (?s ! i)"
    using len by (simp only: nth_map)
  also have "?s ! i = (if i + h < length xs
      then Some (prod_list (take (h + 1) (drop i xs))) else None)"
    using assms by (rule forward_window)
  finally show ?thesis by (simp split: if_splits)
qed

lemma avg_column_nth:
  assumes "i < length xs"
  shows "avg_column xs h ! i =
           (if i + h < length xs
            then map_option (\<lambda>v. v - 1)
                   (np_power (prod_list (take (h + 1) (drop i xs))) (1 / real (h + 1)))
            else None)"
proof -
  let ?f = "\<lambda>x. np_power (prod_list x) (1 / real (h + 1))"
  let ?s = "shift_series (- int h) (rolling_apply (h + 1) ?f xs)"
  have len: "i < length ?s"
    using assms by (simp only: length_shift length_rolling_apply)
  have "avg_column xs h = map (map_option (\<lambda>v. v - 1)) ?s"
    by (simp only: avg_column_def sub_series_def Let_def)
  then have "avg_column xs h ! i = map_option (\<lambda>v. v - 1) (?s ! i)"
    using len by (simp only: nth_map)
  also have "?s ! i = (if i + h < length xs
      then ?f (take (h + 1) (drop i xs)) else None)"
    using assms by (rule forward_window)
  finally show ?thesis by (simp split: if_splits)
qed

lemma length_tot_column: "length (tot_column xs h) = length xs"
  by (simp add: tot_column_def length_sub_series length_shift length_rolling_apply)

lemma length_avg_column: "length (avg_column xs h) = length xs"
  by (simp add: avg_column_def length_sub_series length_shift length_rolling_apply)

lemma length_one_plus: "length (one_plus returns) = length returns"
  by (simp add: one_plus_def)

lemma one_plus_nth: "k < length returns \<Longrightarrow> one_plus returns ! k = 1 + snd (returns ! k)"
  by (simp add: one_plus_def)

lemma window_product:
  assumes "i + h \<le> length returns"
  shows "prod_list (take h (drop i (one_plus returns))) = (\<Prod>k = i..<i + h. 1 + snd (returns ! k))"
proof -
  have "prod_list (take h (drop i (one_plus returns))) = (\<Prod>k = i..<i + h. one_plus returns ! k)"
    using assms by (simp add: prod_list_window length_one_plus)
  also have "\<dots> = (\<Prod>k = i..<i + h. 1 + snd (returns ! k))"
    using assms by (intro prod.cong) (auto simp add: one_plus_nth)
  finally show ?thesis .
qed

text \<open>
  The number of columns: a non-empty frame always has the column \<^verbatim>\<open>Return_0\<close>, and a
  frame whose years are pairwise distinct has at least as many columns as rows.
\<close>

lemma N_YEARS_nonempty:
  assumes "returns \<noteq> []"
  shows "\<exists>n. N_YEARS returns = Inr n \<and> 1 \<le> n"
proof -
  let ?S = "set (map fst returns)"
  have "finite ?S" and "?S \<noteq> {}" using assms by auto
  then have "Min ?S \<le> Max ?S" by simp
  then show ?thesis using assms by (simp add: N_YEARS_def)
qed

lemma N_YEARS_distinct:
  assumes "returns \<noteq> []" and "distinct (map fst returns)"
  shows "\<exists>n. N_YEARS returns = Inr n \<and> length returns \<le> nat n"
proof -
  let ?S = "set (map fst returns)"
  have fin: "finite ?S" and ne: "?S \<noteq> {}" using assms by auto
  have "?S \<subseteq> {Min ?S..Max ?S}"
  proof
    fix y assume "y \<in> ?S"
    then have "Min ?S \<le> y" and "y \<le> Max ?S"
      using fin by (simp_all only: Min_le Max_ge)
    then show "y \<in> {Min ?S..Max ?S}" by simp
  qed
  then have "card ?S \<le> card {Min ?S..Max ?S}" by (intro card_mono) auto
  moreover have "card ?S = length returns"
    using assms(2) distinct_card [of "map fst returns"] by simp
  ultimately have "length returns \<le> nat (Max ?S - Min ?S + 1)" by simp
  then show ?thesis using assms(1) by (simp add: N_YEARS_def)
qed

lemma returns_tot_cell:
  assumes "N_YEARS returns = Inr n" and "h < nat n" and "i < length returns"
  shows "\<exists>cols. returns_tot returns = Inr cols \<and> length cols = nat n \<and>
           length (cols ! h) = length returns \<and>
           cols ! h ! i =
             (if i + h < length returns
              then Some ((\<Prod>k = i..<i + (h + 1). 1 + snd (returns ! k)) - 1) else None)"
proof -
  have "tot_column (one_plus returns) h ! i =
          (if i + h < length returns
           then Some ((\<Prod>k = i..<i + (h + 1). 1 + snd (returns ! k)) - 1) else None)"
  proof (cases "i + h < length returns")
    case True
    then have "i + (h + 1) \<le> length returns" by simp
    then show ?thesis
      using assms(3) True window_product [of i "h + 1" returns]
      by (simp add: tot_column_nth length_one_plus)
  next
    case False
    then show ?thesis using assms(3) by (simp add: tot_column_nth length_one_plus)
  qed
  then show ?thesis
    using assms by (simp add: returns_tot_def length_tot_column length_one_plus)
qed

lemma returns_avg_cell:
  assumes "N_YEARS returns = Inr n" and "h < nat n" and "i < length returns"
  shows "\<exists>cols. returns_avg returns = Inr cols \<and> length cols = nat n \<and>
           length (cols ! h) = length returns \<and>
           cols ! h ! i =
             (if i + h < length returns
              then map_option (\<lambda>v. v - 1)
                     (np_power (\<Prod>k = i..<i + (h + 1). 1 + snd (returns ! k)) (1 / real (h + 1)))
              else None)"
proof -
  have "avg_column (one_plus returns) h ! i =
          (if i + h < length returns
           then map_option (\<lambda>v. v - 1)
                  (np_power (\<Prod>k = i..<i + (h + 1). 1 + snd (returns ! k)) (1 / real (h + 1)))
           else None)"
  proof (cases "i + h < length returns")
    case True
    then have "i + (h + 1) \<le> length returns" by simp
    then show ?thesis
      using assms(3) True window_product [of i "h + 1" returns]
      by (simp add: avg_column_nth length_one_plus)
  next
    case False
    then show ?thesis using assms(3) by (simp add: avg_column_nth length_one_plus)
  qed
  then show ?thesis
    using assms by (simp add: returns_avg_def length_avg_column length_one_plus)
qed

section \<open>Auxiliary facts for the claims\<close>

lemma np_power_root:
  assumes "0 < h"
  shows "np_power P (1 / real h) = (if 0 \<le> P \<or> h = 1 then Some (root h P) else None)"
proof -
  consider "0 < P" | "P = 0" | "P < 0" "h = 1" | "P < 0" "h \<noteq> 1" by linarith
  then show ?thesis
  proof cases
    case 1
    then show ?thesis using assms by (simp add: np_power_def root_powr_inverse)
  next
    case 2
    then show ?thesis using assms by (simp add: np_power_def)
  next
    case 3
    then show ?thesis by (simp add: np_power_def)
  next
    case 4
    then have h2: "2 \<le> h" using assms by simp
    then have "0 < 1 / real h" and "1 / real h < 1" by simp_all
    then have "\<lfloor>1 / real h\<rfloor> = 0" by linarith
    then have "1 / real h \<noteq> of_int \<lfloor>1 / real h\<rfloor>" using h2 by simp
    then show ?thesis using 4 by (simp add: np_power_def)
  qed
qed

lemma returns_avg_Inr:
  "N_YEARS returns = Inr n \<Longrightarrow>
     returns_avg returns = Inr (map (avg_column (one_plus returns)) [0..<nat n])"
  by (simp add: returns_avg_def)


lemma returns_tot_Inr:
  "N_YEARS returns = Inr n \<Longrightarrow>
     returns_tot returns = Inr (map (tot_column (one_plus returns)) [0..<nat n])"
  by (simp add: returns_tot_def)

lemma cells_window:
  assumes "distinct (map fst returns)" and "1 \<le> h" and "i + h \<le> length returns"
  obtains ac tc where
    "returns_avg returns = Inr ac" and "returns_tot returns = Inr tc" and
    "h \<le> length ac" and "h \<le> length tc" and
    "i < length (ac ! (h - 1))" and "i < length (tc ! (h - 1))" and
    "tc ! (h - 1) ! i = Some ((\<Prod>k = i..<i + h. 1 + snd (returns ! k)) - 1)" and
    "ac ! (h - 1) ! i =
       map_option (\<lambda>v. v - 1) (np_power (\<Prod>k = i..<i + h. 1 + snd (returns ! k)) (1 / real h))"
proof -
  have ne: "returns \<noteq> []" using assms(2,3) by auto
  obtain n where n: "N_YEARS returns = Inr n" "length returns \<le> nat n"
    using N_YEARS_distinct [OF ne assms(1)] by blast
  have h: "h - 1 < nat n" and i: "i < length returns" and ih: "i + (h - 1) < length returns"
    using assms(2,3) n(2) by auto
  have eq: "h - 1 + 1 = h" and hn: "h \<le> nat n" using assms(2) h by simp_all
  obtain tc where tc: "returns_tot returns = Inr tc" "length tc = nat n"
      "length (tc ! (h - 1)) = length returns"
      "tc ! (h - 1) ! i = Some ((\<Prod>k = i..<i + (h - 1 + 1). 1 + snd (returns ! k)) - 1)"
    using returns_tot_cell [OF n(1) h i] ih by auto
  obtain ac where ac: "returns_avg returns = Inr ac" "length ac = nat n"
      "length (ac ! (h - 1)) = length returns"
      "ac ! (h - 1) ! i = map_option (\<lambda>v. v - 1)
         (np_power (\<Prod>k = i..<i + (h - 1 + 1). 1 + snd (returns ! k)) (1 / real (h - 1 + 1)))"
    using returns_avg_cell [OF n(1) h i] ih by auto
  show ?thesis
  proof (rule that [of ac tc])
    show "returns_avg returns = Inr ac" by (rule ac(1))
    show "returns_tot returns = Inr tc" by (rule tc(1))
    show "h \<le> length ac" using ac(2) hn by simp
    show "h \<le> length tc" using tc(2) hn by simp
    show "i < length (ac ! (h - 1))" using ac(3) i by simp
    show "i < length (tc ! (h - 1))" using tc(3) i by simp
    show "tc ! (h - 1) ! i = Some ((\<Prod>k = i..<i + h. 1 + snd (returns ! k)) - 1)"
      using tc(4) by (simp only: eq)
    show "ac ! (h - 1) ! i =
       map_option (\<lambda>v. v - 1) (np_power (\<Prod>k = i..<i + h. 1 + snd (returns ! k)) (1 / real h))"
      using ac(4) by (simp only: eq)
  qed
qed

lemma window_product_zero:
  fixes returns :: frame
  assumes "i \<le> k" and "k < i + h" and "snd (returns ! k) = - 1"
  shows "(\<Prod>k = i..<i + h. 1 + snd (returns ! k)) = 0"
proof -
  have "k \<in> {i..<i + h}" using assms(1,2) by simp
  moreover have "1 + snd (returns ! k) = 0" using assms(3) by simp
  ultimately show ?thesis by auto
qed






section \<open>Rounding to float64\<close>

text \<open>
  \<open>fl\<close> is evaluated from a bracket of the argument between two powers of two, and its
  relative error is at most \<open>1 / 2 ^ 53\<close>.
\<close>

lemma two_powi_pos: "0 < (2::real) powi e"
  by simp

lemma floor_log2_bracket:
  assumes "2 powi e \<le> \<bar>x\<bar>" and "\<bar>x\<bar> < 2 powi (e + 1)"
  shows "\<lfloor>log 2 \<bar>x\<bar>\<rfloor> = e"
proof -
  have pos: "0 < \<bar>x\<bar>"
    using assms(1) two_powi_pos [of e] by linarith
  have a: "(2::real) powr (of_int e) = 2 powi e"
    by (rule powr_real_of_int') simp_all
  have b: "(2::real) powr (of_int (e + 1)) = 2 powi (e + 1)"
    by (rule powr_real_of_int') simp_all
  have "(2::real) powr (of_int e) \<le> \<bar>x\<bar>" and "\<bar>x\<bar> < (2::real) powr (of_int e + 1)"
    using assms a b by simp_all
  then show ?thesis using pos floor_log_eq_powr_iff [of "\<bar>x\<bar>" 2 e] by simp
qed

lemma fl_eval:
  assumes "2 powi e \<le> \<bar>x\<bar>" and "\<bar>x\<bar> < 2 powi (e + 1)"
  shows "fl x = of_int (round_even (x * 2 powi (52 - e))) * 2 powi (e - 52)"
proof -
  have "0 < \<bar>x\<bar>" using assms(1) two_powi_pos [of e] by linarith
  then have "x \<noteq> 0" by auto
  then show ?thesis by (simp add: fl_def floor_log2_bracket [OF assms])
qed

lemma round_even_error: "\<bar>of_int (round_even x) - x\<bar> \<le> 1 / 2"
proof -
  have "of_int \<lfloor>x\<rfloor> \<le> x" and "x < of_int \<lfloor>x\<rfloor> + 1" by linarith+
  then show ?thesis by (auto simp add: round_even_def Let_def)
qed

lemma round_even_unique:
  assumes "\<bar>x - of_int k\<bar> < 1 / 2"
  shows "round_even x = k"
proof -
  have "\<lfloor>x\<rfloor> = k \<or> \<lfloor>x\<rfloor> = k - 1" using assms by linarith
  then show ?thesis
  proof
    assume f: "\<lfloor>x\<rfloor> = k"
    then have "x - of_int k < 1 / 2" using assms by linarith
    then show ?thesis using f by (simp add: round_even_def)
  next
    assume f: "\<lfloor>x\<rfloor> = k - 1"
    then have "1 / 2 < x - of_int (k - 1)" using assms by (simp, linarith)
    then show ?thesis using f by (simp add: round_even_def)
  qed
qed

lemma two_powi_floor_log_le:
  assumes "x \<noteq> 0"
  shows "2 powi \<lfloor>log 2 \<bar>x\<bar>\<rfloor> \<le> \<bar>x\<bar>"
proof -
  have "(2::real) powr (of_int \<lfloor>log 2 \<bar>x\<bar>\<rfloor>) \<le> \<bar>x\<bar>"
    using assms floor_log_eq_powr_iff [of "\<bar>x\<bar>" 2 "\<lfloor>log 2 \<bar>x\<bar>\<rfloor>"] by simp
  moreover have "(2::real) powr (of_int \<lfloor>log 2 \<bar>x\<bar>\<rfloor>) = 2 powi \<lfloor>log 2 \<bar>x\<bar>\<rfloor>"
    by (rule powr_real_of_int') simp_all
  ultimately show ?thesis by simp
qed

lemma fl_error: "\<bar>fl x - x\<bar> \<le> \<bar>x\<bar> / 2 ^ 53"
proof (cases "x = 0")
  case True
  then show ?thesis by (simp add: fl_def)
next
  case False
  define e where "e = \<lfloor>log 2 \<bar>x\<bar>\<rfloor>"
  define u :: real where "u = 2 powi (e - 52)"
  define k where "k = round_even (x * 2 powi (52 - e))"
  have u: "0 < u" by (simp add: u_def)
  have inv: "2 powi (52 - e) = 1 / u"
    using power_int_minus [of "2::real" "e - 52"] by (simp add: u_def field_simps)
  have flx: "fl x = of_int k * u"
    using False by (simp add: fl_def Let_def e_def u_def k_def)
  have "\<bar>of_int k - x / u\<bar> \<le> 1 / 2"
    using round_even_error [of "x * 2 powi (52 - e)"] by (simp add: k_def inv)
  then have "\<bar>of_int k - x / u\<bar> * u \<le> 1 / 2 * u"
    using u by (intro mult_right_mono) simp_all
  moreover have "\<bar>of_int k - x / u\<bar> * u = \<bar>of_int k * u - x\<bar>"
    using u by (simp add: abs_mult [symmetric, of _ u, simplified] field_simps flip: abs_mult)
  ultimately have err: "\<bar>fl x - x\<bar> \<le> u / 2" by (simp add: flx)
  have "2 powi e = u * 2 ^ 52"
    using power_int_add [of "2::real" "e - 52" 52] by (simp add: u_def)
  moreover have "2 powi e \<le> \<bar>x\<bar>"
    unfolding e_def using False by (rule two_powi_floor_log_le)
  ultimately have "u * 2 ^ 52 \<le> \<bar>x\<bar>" by simp
  then have "u / 2 \<le> \<bar>x\<bar> / 2 ^ 53" by (simp add: field_simps)
  then show ?thesis using err by linarith
qed

text \<open>
  The float64 values that occur on the inputs \<open>[0.10, 0.10]\<close> and \<open>[-0.5, 1.0]\<close>:
  \<open>0.1\<close>, \<open>0.1 + 1 = 1.1\<close>, \<open>1.1 - 1\<close>, \<open>1.1 * 1.1\<close> and \<open>1.1 * 1.1 - 1\<close>, each
  rounded.
\<close>

lemma fl_zero: "fl 0 = 0"
  by (simp add: fl_def)

lemma fl_one: "fl 1 = 1"
  using fl_eval [of 0 1] by (simp add: round_even_def)

lemma fl_two: "fl 2 = 2"
  using fl_eval [of 1 2] by (simp add: round_even_def)

lemma fl_half: "fl (1 / 2) = 1 / 2"
  using fl_eval [of "- 1" "1 / 2"] by (simp add: round_even_def power_int_minus)

lemma fl_minus_half: "fl (- (1 / 2)) = - (1 / 2)"
  using fl_eval [of "- 1" "- (1 / 2)"] by (simp add: round_even_def power_int_minus)

lemma fl_tenth: "fl (1 / 10) = 3602879701896397 / 36028797018963968"
  using fl_eval [of "- 4" "1 / 10"]
  by (simp add: round_even_def power_int_minus)

lemma fl_one_plus_tenth:
  "fl (39631676720860365 / 36028797018963968) = 2476979795053773 / 2251799813685248"
  using fl_eval [of 0 "39631676720860365 / 36028797018963968"]
  by (simp add: round_even_def)

lemma fl_tenth_back:
  "fl (225179981368525 / 2251799813685248) = 225179981368525 / 2251799813685248"
  using fl_eval [of "- 4" "225179981368525 / 2251799813685248"]
  by (simp add: round_even_def power_int_minus)

lemma fl_square:
  "fl (6135428905104631294035961535529 / 5070602400912917605986812821504) =
     5449355549118301 / 4503599627370496"
  using fl_eval [of 0 "6135428905104631294035961535529 / 5070602400912917605986812821504"]
  by (simp add: round_even_def)

lemma fl_square_back:
  "fl (945755921747805 / 4503599627370496) = 945755921747805 / 4503599627370496"
  using fl_eval [of "- 3" "945755921747805 / 4503599627370496"]
  by (simp add: round_even_def power_int_minus)

section \<open>The cells of the float64 frames\<close>







lemma np_power_exponent_one: "np_power x 1 = Some x"
  using np_power_root [of 1 x] by simp

lemma sqrt_square_bracket:
  "4953959590107546 - 1 / 2 < sqrt (5449355549118301 / 4503599627370496) * 4503599627370496 \<and>
   sqrt (5449355549118301 / 4503599627370496) * 4503599627370496 < 4953959590107546 + 1 / 2"
proof -
  let ?q = "5449355549118301 / 4503599627370496 :: real"
  have "((4953959590107546 - 1 / 2) / 4503599627370496)\<^sup>2 < ?q"
    by (simp add: power2_eq_square)
  then have lo: "(4953959590107546 - 1 / 2) / 4503599627370496 < sqrt ?q"
    by (rule real_less_rsqrt)
  have "?q < ((4953959590107546 + 1 / 2) / 4503599627370496)\<^sup>2"
    by (simp add: power2_eq_square)
  then have hi: "sqrt ?q < (4953959590107546 + 1 / 2) / 4503599627370496"
    by (intro real_less_lsqrt) simp_all
  show ?thesis using lo hi by (simp add: field_simps)
qed

lemma fl_sqrt_square:
  "fl (sqrt (5449355549118301 / 4503599627370496)) = 2476979795053773 / 2251799813685248"
proof -
  define s :: real where "s = sqrt (5449355549118301 / 4503599627370496)"
  have b: "4953959590107546 - 1 / 2 < s * 4503599627370496"
      "s * 4503599627370496 < 4953959590107546 + 1 / 2"
    using sqrt_square_bracket by (simp_all only: s_def)
  then have "\<bar>s * 4503599627370496 - 4953959590107546\<bar> < 1 / 2"
    by linarith
  then have "\<bar>s * 4503599627370496 - of_int 4953959590107546\<bar> < 1 / 2"
    by simp
  then have r: "round_even (s * 4503599627370496) = 4953959590107546"
    by (rule round_even_unique)
  have "1 \<le> s" and "s < 2" using b by linarith+
  then have "2 powi 0 \<le> \<bar>s\<bar>" and "\<bar>s\<bar> < 2 powi (0 + 1)" by simp_all
  then have "fl s = of_int (round_even (s * 2 powi (52 - 0))) * 2 powi (0 - 52)"
    by (rule fl_eval)
  then have "fl s = 2476979795053773 / 2251799813685248"
    using r by (simp add: power_int_minus)
  then show ?thesis by (simp only: s_def)
qed

lemma sqrt_square_near:
  "11 / 10 \<le> sqrt (5449355549118301 / 4503599627370496) \<and>
   sqrt (5449355549118301 / 4503599627370496) \<le> 11 / 10 + 2 / 10 ^ 16"
proof -
  let ?q = "5449355549118301 / 4503599627370496 :: real"
  have "(11 / 10)\<^sup>2 \<le> ?q" by (simp add: power2_eq_square)
  then have lo: "11 / 10 \<le> sqrt ?q" by (rule real_le_rsqrt)
  have "?q \<le> (11 / 10 + 2 / 10 ^ 16)\<^sup>2" by (simp add: power2_eq_square)
  then have hi: "sqrt ?q \<le> 11 / 10 + 2 / 10 ^ 16" by (intro real_le_lsqrt) simp_all
  show ?thesis using lo hi by simp
qed

lemma annualized_two_year_bound:
  assumes "\<bar>p - sqrt (5449355549118301 / 4503599627370496)\<bar>
             \<le> sqrt (5449355549118301 / 4503599627370496) / 2 ^ 52"
  shows "\<bar>fl (p - 1) - 1 / 10\<bar> \<le> 1 / 2 ^ 50"
proof -
  define s :: real where "s = sqrt (5449355549118301 / 4503599627370496)"
  have "11 / 10 \<le> s" and "s \<le> 11 / 10 + 2 / 10 ^ 16"
    using sqrt_square_near by (simp_all only: s_def)
  then have s: "11 / 10 \<le> s" "s \<le> 11 / 10 + 2 / 10000000000000000" by simp_all
  have ps: "\<bar>p - s\<bar> \<le> s / 2 ^ 52" using assms by (simp only: s_def)
  have "s / 2 ^ 52 \<le> (12 / 10) / 2 ^ 52" using s(2) by (intro divide_right_mono) simp_all
  also have "\<dots> \<le> 3 / 10000000000000000" by simp
  finally have ps': "\<bar>p - s\<bar> \<le> 3 / 10000000000000000" using ps by linarith
  have "\<bar>p - 1\<bar> \<le> 1" using ps' s by linarith
  then have "\<bar>p - 1\<bar> / 2 ^ 53 \<le> 1 / 2 ^ 53" by (intro divide_right_mono) simp_all
  also have "\<dots> \<le> (2 / 10000000000000000 :: real)" by simp
  finally have "\<bar>fl (p - 1) - (p - 1)\<bar> \<le> 2 / 10000000000000000"
    using fl_error [of "p - 1"] by linarith
  then have "\<bar>fl (p - 1) - 1 / 10\<bar> \<le> 7 / 10000000000000000"
    using ps' s by linarith
  also have "\<dots> \<le> 1 / 2 ^ 50" by simp
  finally show ?thesis .
qed

section \<open>The claims about the return aggregation\<close>





text \<open>
  Claim C3 says that a request beyond the available history never raises an error. On
  the empty series (a file with a single year leaves no annual return) every pair
  \<open>(i, h)\<close> with \<open>h \<ge> 1\<close> has \<open>i + h > Y = 0\<close>, and the aggregation does raise:
  \<^verbatim>\<open>returns.index.max()\<close> is NaN and \<^verbatim>\<open>range(N_YEARS)\<close> raises a TypeError.
\<close>

theorem empty_series_raises_counterexample:
  "returns_avg [] = Inl TypeError \<and> returns_tot [] = Inl TypeError"
  by (simp add: returns_avg_def returns_tot_def N_YEARS_def)

text \<open>
  Claim C3, amended. For every non-empty series of length \<open>Y\<close> and every pair
  \<open>(i, h)\<close>, \<open>h \<ge> 1\<close>, with \<open>i + h > Y\<close>: the aggregation returns both frames
  without an error; every existing column \<^verbatim>\<open>Return_{h-1}\<close> has exactly the \<open>Y\<close> rows of
  the frame, so that a row \<open>i \<ge> Y\<close> has no cell at all; and for a row \<open>i < Y\<close> the
  cell is missing (NaN) in the annualized and in the total frame. (With pairwise
  distinct years the columns \<open>1, ..., Y\<close> all exist.)
\<close>

theorem insufficient_history_cells_missing:
  assumes "returns \<noteq> []" and "1 \<le> h" and "length returns < i + h"
  shows "\<exists>ac tc. returns_avg returns = Inr ac \<and> returns_tot returns = Inr tc \<and>
           length tc = length ac \<and>
           (distinct (map fst returns) \<longrightarrow> length returns \<le> length ac) \<and>
           (h \<le> length ac \<longrightarrow>
              length (ac ! (h - 1)) = length returns \<and>
              length (tc ! (h - 1)) = length returns \<and>
              (i < length returns \<longrightarrow> ac ! (h - 1) ! i = None \<and> tc ! (h - 1) ! i = None))"
proof -
  obtain n where n: "N_YEARS returns = Inr n"
    using N_YEARS_nonempty [OF assms(1)] by blast
  let ?ac = "map (avg_column (one_plus returns)) [0..<nat n]"
  let ?tc = "map (tot_column (one_plus returns)) [0..<nat n]"
  have out: "\<not> i + (h - 1) < length (one_plus returns)"
    using assms(2,3) by (simp add: length_one_plus)
  have "distinct (map fst returns) \<longrightarrow> length returns \<le> length ?ac"
    using N_YEARS_distinct [OF assms(1)] n by auto
  moreover have "h \<le> length ?ac \<longrightarrow>
              length (?ac ! (h - 1)) = length returns \<and>
              length (?tc ! (h - 1)) = length returns \<and>
              (i < length returns \<longrightarrow> ?ac ! (h - 1) ! i = None \<and> ?tc ! (h - 1) ! i = None)"
  proof
    assume "h \<le> length ?ac"
    then have h: "h - 1 < nat n" using assms(2) by simp
    then have cols: "?ac ! (h - 1) = avg_column (one_plus returns) (h - 1)"
      "?tc ! (h - 1) = tot_column (one_plus returns) (h - 1)" by simp_all
    have "i < length returns \<longrightarrow> ?ac ! (h - 1) ! i = None \<and> ?tc ! (h - 1) ! i = None"
    proof
      assume "i < length returns"
      then have "i < length (one_plus returns)" by (simp add: length_one_plus)
      then show "?ac ! (h - 1) ! i = None \<and> ?tc ! (h - 1) ! i = None"
        using out by (simp only: cols avg_column_nth tot_column_nth) simp
    qed
    then show "length (?ac ! (h - 1)) = length returns \<and>
              length (?tc ! (h - 1)) = length returns \<and>
              (i < length returns \<longrightarrow> ?ac ! (h - 1) ! i = None \<and> ?tc ! (h - 1) ! i = None)"
      by (simp only: cols length_avg_column length_tot_column length_one_plus)
  qed
  moreover have "length ?tc = length ?ac" by simp
  ultimately show ?thesis
    using returns_avg_Inr [OF n] returns_tot_Inr [OF n] by blast
qed

theorem insufficient_history_cells_missing_witness:
  "[(2000::int, 1 / 10 :: real), (2001, 1 / 5)] \<noteq> [] \<and> (1::nat) \<le> 2 \<and>
   length [(2000::int, 1 / 10 :: real), (2001, 1 / 5)] < 1 + 2 \<and>
   (\<exists>ac tc. returns_avg [(2000, 1 / 10), (2001, 1 / 5)] = Inr ac \<and>
      returns_tot [(2000, 1 / 10), (2001, 1 / 5)] = Inr tc \<and>
      length ac = 2 \<and> length tc = 2 \<and> length (ac ! 1) = 2 \<and> length (tc ! 1) = 2 \<and>
      ac ! 1 ! 1 = None \<and> tc ! 1 ! 1 = None)"
proof -
  obtain ac tc where "returns_avg [(2000, 1 / 10), (2001, 1 / 5)] = Inr ac"
    and "returns_tot [(2000, 1 / 10), (2001, 1 / 5)] = Inr tc"
    and "length tc = length ac"
    and "2 \<le> length ac \<longrightarrow> length (ac ! (2 - 1)) = 2 \<and> length (tc ! (2 - 1)) = 2 \<and>
       ac ! (2 - 1) ! 1 = None \<and> tc ! (2 - 1) ! 1 = None"
    using insufficient_history_cells_missing [of "[(2000, 1 / 10), (2001, 1 / 5)]" 2 1]
    by auto
  moreover have "length ac = 2"
    using calculation(1) by (auto simp add: returns_avg_def N_YEARS_def)
  ultimately show ?thesis by auto
qed




text \<open>
  Claim C6 asks for \<open>annualized(0,2) == 0.10\<close> on the returns \<open>[0.10, 0.10]\<close>. In
  float64 the cell is \<open>0.10000000000000009\<close> and not the float64 \<open>0.1\<close>: the product
  \<open>1.1 * 1.1\<close> rounds to \<open>1.2100000000000002\<close>, the correctly rounded square root of
  that is \<open>1.1\<close> again, and \<open>1.1 - 1\<close> is \<open>225179981368525 / 2 ^ 51\<close>.
\<close>

theorem annualized_two_year_not_exact_counterexample:
  "returns_avg_fl np_power_fl [(2000, fl (1 / 10)), (2001, fl (1 / 10))] =
     Inr [[Some (225179981368525 / 2251799813685248), Some (225179981368525 / 2251799813685248)],
          [Some (225179981368525 / 2251799813685248), None]] \<and>
   (225179981368525 / 2251799813685248 :: real) \<noteq> fl (1 / 10)"
proof -
  have p: "np_power_fl (5449355549118301 / 4503599627370496) (1 / 2) =
      Some (2476979795053773 / 2251799813685248)"
    by (simp add: np_power_fl_def np_power_def powr_half_sqrt fl_sqrt_square)
  have p1: "np_power_fl (2476979795053773 / 2251799813685248) 1 =
      Some (2476979795053773 / 2251799813685248)"
    using fl_one_plus_tenth fl_eval [of 0 "2476979795053773 / 2251799813685248"]
    by (simp add: np_power_fl_def np_power_def round_even_def)
  show ?thesis
    by (simp add: returns_avg_fl_def N_YEARS_def one_plus_fl_def avg_column_fl_def
      rolling_apply_def shift_series_def sub_series_fl_def upt_rec fl_tenth fl_one_plus_tenth
      fl_tenth_back fl_square fl_one fl_half p p1)
qed

text \<open>
  Claim C6, amended. On the float64 returns \<open>[0.10, 0.10]\<close> of two consecutive years
  the cell \<open>total(0,2)\<close> is \<open>0.2100000000000002\<close>, within \<open>1 / 2 ^ 52\<close> of \<open>0.21\<close>,
  and the cell \<open>annualized(0,2)\<close> is within \<open>1 / 2 ^ 50\<close> of \<open>0.10\<close>, for every power
  function whose relative error on results between \<open>1\<close> and \<open>2\<close> is at most
  \<open>1 / 2 ^ 52\<close> and which is exact for the base \<open>1\<close> and for the exponent \<open>1\<close>; on
  \<open>[-0.5, 1.0]\<close> both cells are exactly \<open>0\<close>. The whole frames are given: the first list is the column
  \<^verbatim>\<open>Return_0\<close>, the second the column \<^verbatim>\<open>Return_1\<close>.
\<close>

theorem concrete_two_year_inputs_float:
  assumes acc: "\<forall>x y. 0 < x \<longrightarrow> 1 \<le> x powr y \<longrightarrow> x powr y \<le> 2 \<longrightarrow>
                 (\<exists>p. pw x y = Some p \<and> \<bar>p - x powr y\<bar> \<le> x powr y / 2 ^ 52)"
    and one: "\<forall>y. pw 1 y = Some 1" and ident: "\<forall>x. pw x 1 = Some x"
  shows "returns_tot_fl [(y, fl (1 / 10)), (y + 1, fl (1 / 10))] =
     Inr [[Some (225179981368525 / 2251799813685248), Some (225179981368525 / 2251799813685248)],
          [Some (945755921747805 / 4503599627370496), None]] \<and>
   \<bar>945755921747805 / 4503599627370496 - 21 / 100\<bar> \<le> (1 / 2 ^ 52 :: real) \<and>
   (\<exists>a. returns_avg_fl pw [(y, fl (1 / 10)), (y + 1, fl (1 / 10))] =
      Inr [[Some (225179981368525 / 2251799813685248), Some (225179981368525 / 2251799813685248)], [Some a, None]] \<and>
      \<bar>a - 1 / 10\<bar> \<le> 1 / 2 ^ 50) \<and>
   returns_tot_fl [(y, - (1 / 2)), (y + 1, 1)] = Inr [[Some (- (1 / 2)), Some 1], [Some 0, None]] \<and>
   returns_avg_fl pw [(y, - (1 / 2)), (y + 1, 1)] =
     Inr [[Some (- (1 / 2)), Some 1], [Some 0, None]]"
proof -
  let ?q = "5449355549118301 / 4503599627370496 :: real"
  have t1: "returns_tot_fl [(y, fl (1 / 10)), (y + 1, fl (1 / 10))] =
     Inr [[Some (225179981368525 / 2251799813685248), Some (225179981368525 / 2251799813685248)],
          [Some (945755921747805 / 4503599627370496), None]]"
    by (simp add: returns_tot_fl_def N_YEARS_def one_plus_fl_def tot_column_fl_def
        rolling_apply_def shift_series_def sub_series_fl_def upt_rec fl_tenth fl_one_plus_tenth
        fl_tenth_back fl_square fl_square_back)
  have tol: "\<bar>945755921747805 / 4503599627370496 - 21 / 100\<bar> \<le> (1 / 2 ^ 52 :: real)"
    by simp
  have root: "?q powr (1 / 2) = sqrt ?q" by (simp add: powr_half_sqrt)
  have "0 < ?q" and "1 \<le> ?q powr (1 / 2)" and "?q powr (1 / 2) \<le> 2"
    using sqrt_square_near by (simp_all only: root) simp_all
  then have "\<exists>p. pw ?q (1 / 2) = Some p \<and> \<bar>p - ?q powr (1 / 2)\<bar> \<le> ?q powr (1 / 2) / 2 ^ 52"
    using acc by blast
  then obtain p where p: "pw ?q (1 / 2) = Some p" "\<bar>p - sqrt ?q\<bar> \<le> sqrt ?q / 2 ^ 52"
    by (auto simp only: root)
  have "\<bar>p - sqrt ?q\<bar> \<le> sqrt ?q / 2 ^ 52"
    by (rule p(2))
  then have bound: "\<bar>fl (p - 1) - 1 / 10\<bar> \<le> 1 / 2 ^ 50"
    by (rule annualized_two_year_bound)
  have a1: "returns_avg_fl pw [(y, fl (1 / 10)), (y + 1, fl (1 / 10))] =
      Inr [[Some (225179981368525 / 2251799813685248), Some (225179981368525 / 2251799813685248)], [Some (fl (p - 1)), None]]"
    using ident p(1)
    by (simp add: returns_avg_fl_def N_YEARS_def one_plus_fl_def avg_column_fl_def
        rolling_apply_def shift_series_def sub_series_fl_def upt_rec fl_tenth fl_one_plus_tenth
        fl_tenth_back fl_square fl_one fl_half)
  have t2: "returns_tot_fl [(y, - (1 / 2)), (y + 1, 1)] =
      Inr [[Some (- (1 / 2)), Some 1], [Some 0, None]]"
    by (simp add: returns_tot_fl_def N_YEARS_def one_plus_fl_def tot_column_fl_def
        rolling_apply_def shift_series_def sub_series_fl_def upt_rec fl_half fl_minus_half
        fl_two fl_one fl_zero)
  have a2: "returns_avg_fl pw [(y, - (1 / 2)), (y + 1, 1)] =
      Inr [[Some (- (1 / 2)), Some 1], [Some 0, None]]"
    using ident one
    by (simp add: returns_avg_fl_def N_YEARS_def one_plus_fl_def avg_column_fl_def
        rolling_apply_def shift_series_def sub_series_fl_def upt_rec fl_half fl_minus_half
        fl_two fl_one fl_zero)
  show ?thesis using t1 tol a1 bound t2 a2 by blast
qed

theorem concrete_two_year_inputs_float_witness:
  "(\<forall>y. np_power 1 y = Some 1) \<and> (\<forall>x. np_power x 1 = Some x) \<and>
   returns_tot_fl [(2000, fl (1 / 10)), (2001, fl (1 / 10))] =
     Inr [[Some (225179981368525 / 2251799813685248), Some (225179981368525 / 2251799813685248)],
          [Some (945755921747805 / 4503599627370496), None]] \<and>
   (\<exists>a. returns_avg_fl np_power [(2000, fl (1 / 10)), (2001, fl (1 / 10))] =
      Inr [[Some (225179981368525 / 2251799813685248), Some (225179981368525 / 2251799813685248)], [Some a, None]] \<and>
      \<bar>a - 1 / 10\<bar> \<le> 1 / 2 ^ 50) \<and>
   returns_tot_fl [(2000, - (1 / 2)), (2001, 1)] =
     Inr [[Some (- (1 / 2)), Some 1], [Some 0, None]] \<and>
   returns_avg_fl np_power [(2000, - (1 / 2)), (2001, 1)] =
     Inr [[Some (- (1 / 2)), Some 1], [Some 0, None]]"
proof -
  have acc: "\<forall>x y. 0 < x \<longrightarrow> 1 \<le> x powr y \<longrightarrow> x powr y \<le> 2 \<longrightarrow>
      (\<exists>p. np_power x y = Some p \<and> \<bar>p - x powr y\<bar> \<le> x powr y / 2 ^ 52)"
    by (simp add: np_power_def)
  have one: "\<forall>y. np_power 1 y = Some 1" by (simp add: np_power_def)
  have ident: "\<forall>x. np_power x 1 = Some x" by (simp add: np_power_exponent_one)
  show ?thesis
    using concrete_two_year_inputs_float [of np_power 2000, OF acc one ident] one ident
    by simp
qed

text \<open>
  Claim C7 says that every window whose product of \<open>1 + r\<close> is negative has a missing
  annualized cell. A one-year window is a counterexample: for \<open>r = -3/2\<close> the product
  is \<open>-1/2\<close>, the exponent \<open>1 / 1\<close> is integral, and the cell is \<open>-3/2\<close>.
\<close>

theorem negative_one_year_product_counterexample:
  "(1 + - (3 / 2) :: real) < 0 \<and> returns_avg [(2000, - (3 / 2))] = Inr [[Some (- (3 / 2))]]"
  by (simp add: returns_avg_def N_YEARS_def one_plus_def avg_column_def rolling_apply_def
        shift_series_def sub_series_def np_power_def)

text \<open>
  Claim C7, amended. For every window of at least two years (\<open>h \<ge> 2\<close>, so that the
  exponent \<open>1 / h\<close> is fractional) whose product of \<open>1 + r\<close> is negative, the
  aggregation returns without an error and the annualized cell is missing.
\<close>

theorem negative_product_fractional_root_missing:
  assumes "distinct (map fst returns)" and "2 \<le> h" and "i + h \<le> length returns"
    and "(\<Prod>k = i..<i + h. 1 + snd (returns ! k)) < 0"
  shows "\<exists>cols. returns_avg returns = Inr cols \<and> h \<le> length cols \<and>
           i < length (cols ! (h - 1)) \<and> cols ! (h - 1) ! i = None"
proof -
  have h: "1 \<le> h" "0 < h" "h \<noteq> 1" using assms(2) by simp_all
  obtain ac where ac: "returns_avg returns = Inr ac" "h \<le> length ac"
      "i < length (ac ! (h - 1))"
      "ac ! (h - 1) ! i =
       map_option (\<lambda>v. v - 1) (np_power (\<Prod>k = i..<i + h. 1 + snd (returns ! k)) (1 / real h))"
    using cells_window [OF assms(1) h(1) assms(3)] by blast
  have "ac ! (h - 1) ! i = None"
    using ac(4) h(2,3) assms(4) by (simp only: np_power_root) simp
  then show ?thesis using ac(1,2,3) by blast
qed

theorem negative_product_fractional_root_missing_witness:
  "distinct (map fst [(2000::int, - 3 :: real), (2001, 1)]) \<and> (2::nat) \<le> 2 \<and>
   0 + 2 \<le> length [(2000::int, - 3 :: real), (2001, 1)] \<and>
   (\<Prod>k = 0..<0 + 2. 1 + snd ([(2000::int, - 3 :: real), (2001, 1)] ! k)) < 0 \<and>
   (\<exists>cols. returns_avg [(2000, - 3), (2001, 1)] = Inr cols \<and> 2 \<le> length cols \<and>
      cols ! 1 ! 0 = None)"
  using negative_product_fractional_root_missing [of "[(2000, - 3), (2001, 1)]" 2 0]
  by (auto simp add: eval_nat_numeral prod.atLeast_Suc_lessThan)

text \<open>
  Claim C8. If a year \<open>k\<close> of the window \<open>i, ..., i + h - 1\<close> has \<open>r[k] = -1\<close>, the
  total cell \<open>(i, h)\<close> is \<open>-1\<close>, for every holding length whose window contains
  that year.
\<close>

theorem total_loss_propagates_to_total:
  assumes "distinct (map fst returns)" and "1 \<le> h" and "i + h \<le> length returns"
    and "i \<le> k" and "k < i + h" and "snd (returns ! k) = - 1"
  shows "\<exists>cols. returns_tot returns = Inr cols \<and> h \<le> length cols \<and>
           i < length (cols ! (h - 1)) \<and> cols ! (h - 1) ! i = Some (- 1)"
proof -
  obtain tc where tc: "returns_tot returns = Inr tc" "h \<le> length tc"
    "i < length (tc ! (h - 1))"
    "tc ! (h - 1) ! i = Some ((\<Prod>k = i..<i + h. 1 + snd (returns ! k)) - 1)"
    using cells_window [OF assms(1,2,3)] by blast
  have "tc ! (h - 1) ! i = Some (- 1)"
    using tc(4) by (simp only: window_product_zero [OF assms(4,5,6)]) simp
  then show ?thesis using tc(1,2,3) by blast
qed

theorem total_loss_propagates_to_total_witness:
  "distinct (map fst [(2000::int, 1 / 10 :: real), (2001, - 1), (2002, 1 / 2)]) \<and>
   (1::nat) \<le> 3 \<and> 0 + 3 \<le> length [(2000::int, 1 / 10 :: real), (2001, - 1), (2002, 1 / 2)] \<and>
   (0::nat) \<le> 1 \<and> (1::nat) < 0 + 3 \<and>
   snd ([(2000::int, 1 / 10 :: real), (2001, - 1), (2002, 1 / 2)] ! 1) = - 1 \<and>
   (\<exists>cols. returns_tot [(2000, 1 / 10), (2001, - 1), (2002, 1 / 2)] = Inr cols \<and>
      3 \<le> length cols \<and> cols ! 2 ! 0 = Some (- 1))"
  using total_loss_propagates_to_total
    [of "[(2000, 1 / 10), (2001, - 1), (2002, 1 / 2)]" 3 0 1]
  by (auto simp add: eval_nat_numeral)

text \<open>
  Claim C10. If a year \<open>k\<close> of the window \<open>i, ..., i + h - 1\<close> has \<open>r[k] = -1\<close>, the
  annualized cell \<open>(i, h)\<close> is \<open>-1\<close> as well, and not missing: the product is zero
  and zero to the power \<open>1 / h\<close> is zero.
\<close>

theorem total_loss_annualized_is_minus_one:
  assumes "distinct (map fst returns)" and "1 \<le> h" and "i + h \<le> length returns"
    and "i \<le> k" and "k < i + h" and "snd (returns ! k) = - 1"
  shows "\<exists>cols. returns_avg returns = Inr cols \<and> h \<le> length cols \<and>
           i < length (cols ! (h - 1)) \<and> cols ! (h - 1) ! i = Some (- 1)"
proof -
  have h: "0 < h" using assms(2) by simp
  obtain ac where ac: "returns_avg returns = Inr ac" "h \<le> length ac"
      "i < length (ac ! (h - 1))"
      "ac ! (h - 1) ! i =
       map_option (\<lambda>v. v - 1) (np_power (\<Prod>k = i..<i + h. 1 + snd (returns ! k)) (1 / real h))"
    using cells_window [OF assms(1,2,3)] by blast
  have "ac ! (h - 1) ! i = Some (- 1)"
    using ac(4) h by (simp only: window_product_zero [OF assms(4,5,6)] np_power_root) simp
  then show ?thesis using ac(1,2,3) by blast
qed

theorem total_loss_annualized_is_minus_one_witness:
  "distinct (map fst [(2000::int, 1 / 10 :: real), (2001, - 1), (2002, 1 / 2)]) \<and>
   (1::nat) \<le> 2 \<and> 1 + 2 \<le> length [(2000::int, 1 / 10 :: real), (2001, - 1), (2002, 1 / 2)] \<and>
   (1::nat) \<le> 1 \<and> (1::nat) < 1 + 2 \<and>
   snd ([(2000::int, 1 / 10 :: real), (2001, - 1), (2002, 1 / 2)] ! 1) = - 1 \<and>
   (\<exists>cols. returns_avg [(2000, 1 / 10), (2001, - 1), (2002, 1 / 2)] = Inr cols \<and>
      2 \<le> length cols \<and> cols ! 1 ! 1 = Some (- 1))"
  using total_loss_annualized_is_minus_one
    [of "[(2000, 1 / 10), (2001, - 1), (2002, 1 / 2)]" 2 1 1]
  by (auto simp add: eval_nat_numeral)

section \<open>The claim about the binning\<close>



end
